theory Spec2Isabelle
  imports Complex_Main
begin

section \<open>Data model\<close>

text \<open>
  The client script \<^verbatim>\<open>flask_app/static/js/main.js\<close> keeps its state in module-level
  variables and reacts to callbacks of a single-threaded event loop.  JavaScript numbers
  that hold coordinates are modelled as mathematical reals, so rounding, \<^verbatim>\<open>NaN\<close> and
  infinities of IEEE doubles are outside the model; counters and clock readings
  (\<^verbatim>\<open>Date.now()\<close>, milliseconds) are integers.

  A highlight marker is the object \<^verbatim>\<open>{name, x, y}\<close> of the wire contract, with
  coordinates normalised to the frame.
\<close>

record joint =
  name :: string
  x :: real
  y :: real

text \<open>
  The drawing surface: \<^verbatim>\<open>canvas\<close> is either \<^verbatim>\<open>null\<close> or an element with a width and a
  height (unsigned integers); \<^verbatim>\<open>ctx\<close> is either \<^verbatim>\<open>null\<close> or a 2d context, of which only
  the presence matters here.
\<close>

record surface =
  width :: nat
  height :: nat

section \<open>The marker smoother\<close>

text \<open>The two constants declared inside \<^verbatim>\<open>updateHighlightJoints\<close>.\<close>

definition alpha :: real where
  "alpha = 0.3"

definition snapRadiusPx :: real where
  "snapRadiusPx = 25"

text \<open>
  The callback of \<^verbatim>\<open>newJoints.map\<close> (lines 269 to 299).  \<^verbatim>\<open>Array.prototype.find\<close>
  returns the first element that satisfies the predicate, as \<^const>\<open>find\<close> does; the
  spread \<^verbatim>\<open>{ ...joint }\<close> copies the object.
\<close>

definition smoothJoint :: "surface \<Rightarrow> joint list \<Rightarrow> joint \<Rightarrow> joint" where
  "smoothJoint cv lastHighlightJoints j =
     (case find (\<lambda>p. name p = name j) lastHighlightJoints of
        None \<Rightarrow> j
      | Some prev \<Rightarrow>
          (let prevXpx = x prev * real (width cv);
               prevYpx = y prev * real (height cv);
               newXpx = x j * real (width cv);
               newYpx = y j * real (height cv);
               dx = newXpx - prevXpx;
               dy = newYpx - prevYpx;
               dist = sqrt (dx * dx + dy * dy)
           in if dist < snapRadiusPx then prev
              else \<lparr>name = name j,
                    x = alpha * x j + (1 - alpha) * x prev,
                    y = alpha * y j + (1 - alpha) * y prev\<rparr>))"

text \<open>
  \<^verbatim>\<open>updateHighlightJoints(newJoints)\<close> reads \<^verbatim>\<open>canvas\<close>, \<^verbatim>\<open>ctx\<close> and
  \<^verbatim>\<open>lastHighlightJoints\<close> and assigns \<^verbatim>\<open>lastHighlightJoints\<close>; the function below
  returns the value assigned.  An absent list reaches it as \<^verbatim>\<open>[]\<close> (the caller passes
  \<^verbatim>\<open>data.highlight_joints || []\<close>).
\<close>

definition updateHighlightJoints ::
    "surface option \<Rightarrow> bool \<Rightarrow> joint list \<Rightarrow> joint list \<Rightarrow> joint list" where
  "updateHighlightJoints canvas ctx newJoints lastHighlightJoints =
     (case canvas of
        None \<Rightarrow> []
      | Some cv \<Rightarrow>
          if \<not> ctx then []
          else if newJoints = [] then []
          else map (smoothJoint cv lastHighlightJoints) newJoints)"

section \<open>The inference response and the page\<close>

text \<open>
  The decoded body of a \<^verbatim>\<open>/process_frame\<close> response, typed as the wire contract gives
  it; an absent field is \<^const>\<open>None\<close>.  \<^verbatim>\<open>angles\<close> and \<^verbatim>\<open>visibility\<close> are objects,
  given as the list of their entries in enumeration order, each key once.  A body whose
  fields have other types, on which a handler could throw half-way, is not a value of
  this type.  The page elements looked up when the script loads are taken to exist.
\<close>

record response =
  error :: "string option"
  pose_text :: "string option"
  confidence :: "real option"
  feedback_text :: "string option"
  has_pose :: bool
  angles :: "(string \<times> real) list option"
  visibility :: "(string \<times> real) list option"
  highlight_joints :: "joint list option"

text \<open>
  What \<^verbatim>\<open>updateUI\<close> and \<^verbatim>\<open>displayAngles\<close> write: the text of three elements, the
  class list of the feedback element, the \<^verbatim>\<open>display\<close> style of the angles panel and the
  items of the angles list.  An item is kept as its key, its rounded value and its
  low-visibility mark; the HTML text built from them by \<^verbatim>\<open>formatAngleName\<close> is not
  modelled.
\<close>

record angleItem =
  angleKey :: string
  angleValue :: int
  isLowVis :: bool

record page =
  poseStatus :: string
  confidenceEl :: string
  feedbackEl :: string
  feedbackClasses :: "string set"
  anglesPanelDisplay :: string
  anglesContent :: "angleItem list"

text \<open>\<^verbatim>\<open>Math.round\<close> rounds to the nearest integer, a half towards plus infinity.\<close>

definition mathRound :: "real \<Rightarrow> int" where
  "mathRound v = \<lfloor>v + 1 / 2\<rfloor>"

text \<open>Decimal digits of a natural number, as a template literal prints an integer.\<close>

fun decimal :: "nat \<Rightarrow> string" where
  "decimal n =
     (if n < 10 then [''0123456789'' ! n]
      else decimal (n div 10) @ [''0123456789'' ! (n mod 10)])"

text \<open>\<^verbatim>\<open>String.prototype.includes\<close>: the argument occurs as a contiguous substring.\<close>

fun includesStr :: "string \<Rightarrow> string \<Rightarrow> bool" where
  "includesStr [] sub = (sub = [])"
| "includesStr (c # cs) sub = (take (length sub) (c # cs) = sub \<or> includesStr cs sub)"

definition displayAngles ::
    "(string \<times> real) list \<Rightarrow> (string \<times> real) list option \<Rightarrow> angleItem list" where
  "displayAngles angs visib =
     map (\<lambda>(key, v).
            let vis = (case visib of
                         None \<Rightarrow> 1
                       | Some vm \<Rightarrow>
                           (case map_of vm key of
                              None \<Rightarrow> 1
                            | Some w \<Rightarrow> if w = 0 then 1 else w))
            in \<lparr>angleKey = key, angleValue = mathRound v, isLowVis = (vis < 0.7)\<rparr>)
         angs"

definition updateUI :: "response \<Rightarrow> page \<Rightarrow> page" where
  "updateUI data pg =
     (let pg1 = pg\<lparr>poseStatus := (case pose_text data of None \<Rightarrow> [] | Some t \<Rightarrow> t)\<rparr>;
          pg2 = (case confidence data of
                   None \<Rightarrow> pg1\<lparr>confidenceEl := []\<rparr>
                 | Some c \<Rightarrow>
                     if c > 0
                     then pg1\<lparr>confidenceEl :=
                            ''Confidence: '' @ decimal (nat (mathRound (c * 100))) @ ''%''\<rparr>
                     else pg1\<lparr>confidenceEl := []\<rparr>);
          pg3 = (case feedback_text data of
                   None \<Rightarrow> pg2\<lparr>feedbackEl := []\<rparr>
                 | Some t \<Rightarrow>
                     if t = [] then pg2\<lparr>feedbackEl := []\<rparr>
                     else if includesStr t ''Good''
                     then pg2\<lparr>feedbackEl := t,
                            feedbackClasses :=
                              insert ''good'' (feedbackClasses pg2 - {''needs-adjustment''})\<rparr>
                     else pg2\<lparr>feedbackEl := t,
                            feedbackClasses :=
                              insert ''needs-adjustment'' (feedbackClasses pg2 - {''good''})\<rparr>)
      in case angles data of
           None \<Rightarrow> pg3\<lparr>anglesPanelDisplay := ''none''\<rparr>
         | Some angs \<Rightarrow>
             if has_pose data
             then pg3\<lparr>anglesContent := displayAngles angs (visibility data),
                    anglesPanelDisplay := ''block''\<rparr>
             else pg3\<lparr>anglesPanelDisplay := ''none''\<rparr>)"

section \<open>The frame scheduler\<close>

text \<open>
  The body of the \<^verbatim>\<open>/process_frame\<close> request.  The image is the canvas after the
  video frame and the markers of \<^verbatim>\<open>lastHighlightJoints\<close> were drawn on it; the camera's
  pixels belong to the environment, so the image is kept as the markers drawn on it.
\<close>

record request =
  imageMarkers :: "joint list"
  session_id :: string
  fpsSent :: int

text \<open>
  The module-level variables, the page, and \<open>inflight\<close>: the requests issued by
  \<^verbatim>\<open>fetch\<close> whose promise chain has not run yet.  The last field belongs to the
  environment, the script has no variable for it.
\<close>

record state =
  canvas :: "surface option"
  ctx :: bool
  isStreaming :: bool
  sessionId :: string
  fps :: int
  frameCount :: int
  lastTime :: int
  isProcessingFrame :: bool
  lastHighlightJoints :: "joint list"
  view :: page
  inflight :: "request list"

text \<open>
  A callback either returns or throws; either way the assignments it made stay.
\<close>

datatype completion = Returns state | Throws state

fun stateOf :: "completion \<Rightarrow> state" where
  "stateOf (Returns s) = s"
| "stateOf (Throws s) = s"

text \<open>
  \<^verbatim>\<open>drawHighlightJoints\<close> draws nothing without a surface or a context; otherwise it
  draws every marker of its argument.
\<close>

definition drawHighlightJoints :: "surface option \<Rightarrow> bool \<Rightarrow> joint list \<Rightarrow> joint list" where
  "drawHighlightJoints cvo cx highlightJoints =
     (if cvo = None \<or> \<not> cx then [] else highlightJoints)"

text \<open>
  \<^verbatim>\<open>captureAndProcess\<close>, up to the call of \<^verbatim>\<open>fetch\<close>.  With \<^verbatim>\<open>ctx\<close> or \<^verbatim>\<open>canvas\<close>
  \<^verbatim>\<open>null\<close> the call \<^verbatim>\<open>ctx.drawImage(video, 0, 0, canvas.width, canvas.height)\<close> throws a
  TypeError after the flag was set.  With both present, drawing and encoding the frame
  return, and \<^verbatim>\<open>fetch\<close> returns a promise: one more request is in flight.
\<close>

definition captureAndProcess :: "state \<Rightarrow> completion" where
  "captureAndProcess s =
     (if isProcessingFrame s \<or> \<not> isStreaming s then Returns s
      else
        let s1 = s\<lparr>isProcessingFrame := True\<rparr>
        in if \<not> ctx s1 \<or> canvas s1 = None then Throws s1
           else Returns (s1\<lparr>inflight := inflight s1 @
                  [\<lparr>imageMarkers =
                      drawHighlightJoints (canvas s1) (ctx s1) (lastHighlightJoints s1),
                    session_id = sessionId s1,
                    fpsSent = fps s1\<rparr>]\<rparr>))"

text \<open>
  \<^verbatim>\<open>startProcessing\<close>, one tick; \<open>currentTime\<close> is what \<^verbatim>\<open>Date.now()\<close> returns.
  The call of \<^verbatim>\<open>requestAnimationFrame\<close> that ends it registers the next tick and is
  skipped when \<^verbatim>\<open>captureAndProcess\<close> throws; ticks are events of the environment here.
\<close>

definition startProcessing :: "int \<Rightarrow> state \<Rightarrow> completion" where
  "startProcessing currentTime s =
     (if \<not> isStreaming s then Returns s
      else
        let s1 = s\<lparr>frameCount := frameCount s + 1\<rparr>;
            s2 = (if currentTime - lastTime s1 \<ge> 1000
                  then s1\<lparr>fps := frameCount s1, frameCount := 0, lastTime := currentTime\<rparr>
                  else s1)
        in if \<not> isProcessingFrame s2 then captureAndProcess s2 else Returns s2)"

text \<open>
  How the promise of \<^verbatim>\<open>fetch\<close> settles: it rejects (transport failure), or it
  fulfils and \<^verbatim>\<open>response.json()\<close> rejects (malformed body), or the body decodes.
\<close>

datatype fetchResult = FetchRejected | JsonRejected | Decoded response

text \<open>
  The handler \<^verbatim>\<open>data => { ... }\<close> of lines 199 to 210.  A string is truthy when it is
  not empty.
\<close>

definition onData :: "response \<Rightarrow> state \<Rightarrow> state" where
  "onData data s =
     (case error data of
        Some e \<Rightarrow>
          if e \<noteq> [] then s\<lparr>view := (view s)\<lparr>poseStatus := ''Error: '' @ e\<rparr>\<rparr>
          else
            let s1 = s\<lparr>view := updateUI data (view s)\<rparr>
            in s1\<lparr>lastHighlightJoints :=
                    updateHighlightJoints (canvas s1) (ctx s1)
                      (case highlight_joints data of None \<Rightarrow> [] | Some js \<Rightarrow> js)
                      (lastHighlightJoints s1)\<rparr>
      | None \<Rightarrow>
          let s1 = s\<lparr>view := updateUI data (view s)\<rparr>
          in s1\<lparr>lastHighlightJoints :=
                  updateHighlightJoints (canvas s1) (ctx s1)
                    (case highlight_joints data of None \<Rightarrow> [] | Some js \<Rightarrow> js)
                    (lastHighlightJoints s1)\<rparr>)"

text \<open>
  The promise chain of the oldest request in flight runs: the \<^verbatim>\<open>then\<close> handlers, the
  \<^verbatim>\<open>catch\<close> handler (it only logs) and the \<^verbatim>\<open>finally\<close> handler, with no other callback
  between them that writes the state.  With no request in flight there is no chain to
  run.
\<close>

definition settle :: "fetchResult \<Rightarrow> state \<Rightarrow> state" where
  "settle r s =
     (case inflight s of
        [] \<Rightarrow> s
      | req # rest \<Rightarrow>
          let s1 = (case r of
                      FetchRejected \<Rightarrow> s
                    | JsonRejected \<Rightarrow> s
                    | Decoded data \<Rightarrow> onData data s)
          in s1\<lparr>isProcessingFrame := False, inflight := rest\<rparr>)"

text \<open>
  The events of the loop: a display refresh, the \<^verbatim>\<open>loadedmetadata\<close> listener of
  \<^verbatim>\<open>startSession\<close> (it sizes the canvas to the video and calls \<^verbatim>\<open>startProcessing\<close>), a
  request settling, and the two assignments to \<^verbatim>\<open>isStreaming\<close> made by \<^verbatim>\<open>startSession\<close>
  and \<^verbatim>\<open>stopSession\<close>.  What else the session functions do is outside the loop and not
  modelled.
\<close>

datatype event =
    Tick int
  | LoadedMetadata nat nat int
  | Settle fetchResult
  | StreamOn
  | StreamOff

fun step :: "event \<Rightarrow> state \<Rightarrow> state" where
  "step (Tick t) s = stateOf (startProcessing t s)"
| "step (LoadedMetadata w h t) s =
     (case canvas s of
        None \<Rightarrow> s
      | Some cv \<Rightarrow> stateOf (startProcessing t (s\<lparr>canvas := Some \<lparr>width = w, height = h\<rparr>\<rparr>)))"
| "step (Settle r) s = settle r s"
| "step StreamOn s = s\<lparr>isStreaming := True\<rparr>"
| "step StreamOff s = s\<lparr>isStreaming := False\<rparr>"

fun run :: "event list \<Rightarrow> state \<Rightarrow> state" where
  "run [] s = s"
| "run (e # es) s = run es (step e s)"

text \<open>
  The state when the script has loaded and \<^verbatim>\<open>DOMContentLoaded\<close> has run: the surface
  and context found (or not), the session identifier generated, the clock read once, the
  page as the document gives it.
\<close>

definition initialState :: "surface option \<Rightarrow> bool \<Rightarrow> string \<Rightarrow> int \<Rightarrow> page \<Rightarrow> state" where
  "initialState cvo cx sid t0 pg =
     \<lparr>canvas = cvo, ctx = cx, isStreaming = False, sessionId = sid,
      fps = 30, frameCount = 0, lastTime = t0, isProcessingFrame = False,
      lastHighlightJoints = [], view = pg, inflight = []\<rparr>"

section \<open>Invariants of the loop and example values\<close>

text \<open>
  Two predicates on states that every run keeps: the flag covers whatever is in flight,
  and markers are only ever persisted when there is a surface to draw on.
\<close>

definition guarded :: "state \<Rightarrow> bool" where
  "guarded s = (inflight s = [] \<or> (isProcessingFrame s \<and> length (inflight s) = 1))"


text \<open>
  A page with every element empty, a start state on a 1000 by 1000 surface and a
  successful response carrying given markers, for evaluating the model on concrete runs.
\<close>

definition blankPage :: page where
  "blankPage =
     \<lparr>poseStatus = [], confidenceEl = [], feedbackEl = [], feedbackClasses = {},
      anglesPanelDisplay = [], anglesContent = []\<rparr>"

definition exampleStart :: state where
  "exampleStart =
     initialState (Some \<lparr>width = 1000, height = 1000\<rparr>) True ''session_1'' 0 blankPage"

definition exampleResponse :: "joint list \<Rightarrow> response" where
  "exampleResponse js =
     \<lparr>error = None, pose_text = Some ''Tree Pose'', confidence = Some 0.9,
      feedback_text = Some ''Good form'', has_pose = True, angles = None,
      visibility = None, highlight_joints = Some js\<rparr>"

section \<open>Frame lemmas: what each callback leaves alone\<close>

lemma captureAndProcess_fields:
  "canvas (stateOf (captureAndProcess s)) = canvas s"
  "ctx (stateOf (captureAndProcess s)) = ctx s"
  "isStreaming (stateOf (captureAndProcess s)) = isStreaming s"
  "fps (stateOf (captureAndProcess s)) = fps s"
  "frameCount (stateOf (captureAndProcess s)) = frameCount s"
  "lastTime (stateOf (captureAndProcess s)) = lastTime s"
  "lastHighlightJoints (stateOf (captureAndProcess s)) = lastHighlightJoints s"
  "view (stateOf (captureAndProcess s)) = view s"
  by (simp_all add: captureAndProcess_def Let_def)

lemma onData_fields:
  "canvas (onData d s) = canvas s"
  "ctx (onData d s) = ctx s"
  "isStreaming (onData d s) = isStreaming s"
  "fps (onData d s) = fps s"
  "frameCount (onData d s) = frameCount s"
  "lastTime (onData d s) = lastTime s"
  "isProcessingFrame (onData d s) = isProcessingFrame s"
  "inflight (onData d s) = inflight s"
  by (simp_all add: onData_def Let_def split: option.splits)

lemma settle_fields:
  "canvas (settle r s) = canvas s"
  "ctx (settle r s) = ctx s"
  "isStreaming (settle r s) = isStreaming s"
  "fps (settle r s) = fps s"
  "frameCount (settle r s) = frameCount s"
  "lastTime (settle r s) = lastTime s"
  by (simp_all add: settle_def Let_def onData_fields split: list.splits fetchResult.splits)

lemma settle_flag:
  "inflight s \<noteq> [] \<Longrightarrow> \<not> isProcessingFrame (settle r s)"
  "inflight (settle r s) = tl (inflight s)"
  by (simp_all add: settle_def Let_def onData_fields split: list.splits fetchResult.splits)

lemma run_append: "run (es @ es') s = run es' (run es s)"
  by (induction es arbitrary: s) simp_all

section \<open>The flag covers the request in flight\<close>

lemma guarded_capture: "guarded s \<Longrightarrow> guarded (stateOf (captureAndProcess s))"
  by (auto simp: guarded_def captureAndProcess_def Let_def)

lemma guarded_startProcessing:
  assumes g: "guarded s"
  shows "guarded (stateOf (startProcessing t s))"
proof -
  have *: "\<And>u. inflight u = inflight s \<Longrightarrow> isProcessingFrame u = isProcessingFrame s \<Longrightarrow> guarded u"
    using g by (simp add: guarded_def)
  show ?thesis
    by (auto simp: startProcessing_def Let_def intro!: guarded_capture * g)
qed

lemma guarded_settle:
  assumes "guarded s"
  shows "guarded (settle r s)"
proof (cases "inflight s")
  case Nil
  then have "settle r s = s" by (simp add: settle_def)
  then show ?thesis using assms by simp
next
  case (Cons req rest)
  with assms have "tl (inflight s) = []" by (simp add: guarded_def)
  then show ?thesis by (simp add: guarded_def settle_flag(2))
qed

lemma guarded_step:
  assumes g: "guarded s"
  shows "guarded (step e s)"
proof (cases e)
  case (LoadedMetadata w h t)
  have "guarded (s\<lparr>canvas := Some \<lparr>width = w, height = h\<rparr>\<rparr>)"
    using g by (simp add: guarded_def)
  then show ?thesis using g LoadedMetadata
    by (auto split: option.splits intro: guarded_startProcessing)
next
  case (Tick t)
  then show ?thesis using g by (simp add: guarded_startProcessing)
next
  case (Settle r)
  then show ?thesis using g by (simp add: guarded_settle)
next
  case StreamOn
  then show ?thesis using g by (simp add: guarded_def)
next
  case StreamOff
  then show ?thesis using g by (simp add: guarded_def)
qed

lemma guarded_run: "guarded s \<Longrightarrow> guarded (run evs s)"
  by (induction evs arbitrary: s) (simp_all add: guarded_step)

lemma guarded_initial: "guarded (initialState cvo cx sid t0 pg)"
  by (simp add: guarded_def initialState_def)

text \<open>
  Claim C1.  In every state a run of the loop reaches from the start, at most one
  \<^verbatim>\<open>/process_frame\<close> request is in flight, and the flag is set whenever one is.  A tick
  that finds the flag set issues no request, and whenever \<^verbatim>\<open>captureAndProcess\<close> issues
  one the flag was clear before and is set after.
\<close>

theorem at_most_one_in_flight:
  "length (inflight (run evs (initialState cvo cx sid t0 pg))) \<le> 1
   \<and> (inflight (run evs (initialState cvo cx sid t0 pg)) \<noteq> []
        \<longrightarrow> isProcessingFrame (run evs (initialState cvo cx sid t0 pg)))
   \<and> (isProcessingFrame s \<longrightarrow> inflight (stateOf (startProcessing t s)) = inflight s)
   \<and> (inflight (stateOf (captureAndProcess s')) \<noteq> inflight s'
        \<longrightarrow> \<not> isProcessingFrame s' \<and> isProcessingFrame (stateOf (captureAndProcess s')))"
proof -
  have "guarded (run evs (initialState cvo cx sid t0 pg))"
    by (rule guarded_run [OF guarded_initial])
  then have a: "length (inflight (run evs (initialState cvo cx sid t0 pg))) \<le> 1"
    and b: "inflight (run evs (initialState cvo cx sid t0 pg)) \<noteq> []
        \<longrightarrow> isProcessingFrame (run evs (initialState cvo cx sid t0 pg))"
    by (auto simp: guarded_def)
  have c: "isProcessingFrame s \<longrightarrow> inflight (stateOf (startProcessing t s)) = inflight s"
    by (simp add: startProcessing_def Let_def)
  have d: "inflight (stateOf (captureAndProcess s')) \<noteq> inflight s'
        \<longrightarrow> \<not> isProcessingFrame s' \<and> isProcessingFrame (stateOf (captureAndProcess s'))"
    by (simp add: captureAndProcess_def Let_def)
  from a b c d show ?thesis by blast
qed

theorem at_most_one_in_flight_witness:
  "isProcessingFrame (run [StreamOn, Tick 16] exampleStart)
   \<and> inflight (stateOf (captureAndProcess (run [StreamOn] exampleStart)))
       \<noteq> inflight (run [StreamOn] exampleStart)
   \<and> inflight (run [StreamOn, Tick 16, Tick 33] exampleStart) \<noteq> []
   \<and> length (inflight (run [StreamOn, Tick 16, Tick 33] exampleStart)) = 1
   \<and> isProcessingFrame (run [StreamOn, Tick 16, Tick 33] exampleStart)
   \<and> inflight (stateOf (startProcessing 33 (run [StreamOn, Tick 16] exampleStart)))
       = inflight (run [StreamOn, Tick 16] exampleStart)
   \<and> isProcessingFrame (stateOf (captureAndProcess (run [StreamOn] exampleStart)))"
  using at_most_one_in_flight
    [of "[StreamOn, Tick 16, Tick 33]" "Some \<lparr>width = 1000, height = 1000\<rparr>" True
        "''session_1''" 0 blankPage "run [StreamOn, Tick 16] exampleStart" 33
        "run [StreamOn] exampleStart"]
  by (simp add: exampleStart_def initialState_def startProcessing_def captureAndProcess_def
        drawHighlightJoints_def Let_def)

section \<open>The smoother: snapping, blending, clearing\<close>



lemma smoothJoint_name: "name (smoothJoint cv old j) = name j"
  by (auto simp: smoothJoint_def Let_def find_Some_iff split: option.splits)


lemma updateHighlightJoints_names:
  "map name (updateHighlightJoints cvo cx newJoints old) =
     (if cvo = None \<or> \<not> cx then [] else map name newJoints)"
  by (auto simp: updateHighlightJoints_def smoothJoint_name split: option.splits)







section \<open>Markers are persisted only with a surface\<close>








text \<open>
  Claim C4 (clearing).  Whatever was persisted and whatever the surface, an update with the
  empty list stores the empty list; and a response without a truthy \<^verbatim>\<open>error\<close> whose
  \<^verbatim>\<open>highlight_joints\<close> is absent or empty leaves the persisted list empty at once.
\<close>

theorem empty_update_clears:
  "updateHighlightJoints cvo cx [] old = []
   \<and> ((error data = None \<or> error data = Some [])
        \<and> (highlight_joints data = None \<or> highlight_joints data = Some [])
      \<longrightarrow> lastHighlightJoints (onData data s) = [])"
  by (auto simp: updateHighlightJoints_def onData_def Let_def split: option.splits)

theorem empty_update_clears_witness:
  "lastHighlightJoints
     (exampleStart\<lparr>lastHighlightJoints := [\<lparr>name = ''left_knee'', x = 0.5, y = 0.5\<rparr>]\<rparr>) \<noteq> []
   \<and> lastHighlightJoints
       (onData \<lparr>error = None, pose_text = Some ''Tree'', confidence = Some 0.9,
                feedback_text = None, has_pose = True, angles = None, visibility = None,
                highlight_joints = None\<rparr>
          (exampleStart\<lparr>lastHighlightJoints := [\<lparr>name = ''left_knee'', x = 0.5, y = 0.5\<rparr>]\<rparr>))
       = []"
  using empty_update_clears
    [of "Some \<lparr>width = 1000, height = 1000\<rparr>" True "[\<lparr>name = ''left_knee'', x = 0.5, y = 0.5\<rparr>]"
        "\<lparr>error = None, pose_text = Some ''Tree'', confidence = Some 0.9,
          feedback_text = None, has_pose = True, angles = None, visibility = None,
          highlight_joints = None\<rparr>"
        "exampleStart\<lparr>lastHighlightJoints := [\<lparr>name = ''left_knee'', x = 0.5, y = 0.5\<rparr>]\<rparr>"]
  by simp




text \<open>
  Claim C8 (one entry per name), as the code has it.  The update stores one marker per
  incoming marker and keeps each name, so the stored names are pairwise distinct whenever
  the incoming names are.
\<close>

theorem distinct_names_preserved:
  "distinct (map name newJoints) \<Longrightarrow>
     distinct (map name (updateHighlightJoints cvo cx newJoints old))"
  by (simp add: updateHighlightJoints_names)

theorem distinct_names_preserved_witness:
  "distinct (map name [\<lparr>name = ''left_knee'', x = 0.6, y = 0.5\<rparr>,
                        \<lparr>name = ''right_knee'', x = 0.1, y = 0.2\<rparr>])
   \<and> distinct (map name (updateHighlightJoints (Some \<lparr>width = 1000, height = 1000\<rparr>) True
        [\<lparr>name = ''left_knee'', x = 0.6, y = 0.5\<rparr>, \<lparr>name = ''right_knee'', x = 0.1, y = 0.2\<rparr>]
        [\<lparr>name = ''left_knee'', x = 0.5, y = 0.5\<rparr>]))"
proof -
  have h: "distinct (map name [\<lparr>name = ''left_knee'', x = 0.6, y = 0.5\<rparr>,
                        \<lparr>name = ''right_knee'', x = 0.1, y = 0.2\<rparr>])"
    by simp
  show ?thesis
    using distinct_names_preserved [OF h, of "Some \<lparr>width = 1000, height = 1000\<rparr>" True
        "[\<lparr>name = ''left_knee'', x = 0.5, y = 0.5\<rparr>]"] h
    by simp
qed

text \<open>
  The claim as written fails on an incoming list that repeats a name: with nothing
  persisted both markers are adopted as they are.
\<close>

theorem repeated_name_is_stored_twice:
  "updateHighlightJoints (Some \<lparr>width = 640, height = 480\<rparr>) True
       [\<lparr>name = ''left_knee'', x = 0.25, y = 0.25\<rparr>, \<lparr>name = ''left_knee'', x = 0.75, y = 0.75\<rparr>] []
    = [\<lparr>name = ''left_knee'', x = 0.25, y = 0.25\<rparr>, \<lparr>name = ''left_knee'', x = 0.75, y = 0.75\<rparr>]
   \<and> \<not> distinct (map name (updateHighlightJoints (Some \<lparr>width = 640, height = 480\<rparr>) True
       [\<lparr>name = ''left_knee'', x = 0.25, y = 0.25\<rparr>, \<lparr>name = ''left_knee'', x = 0.75, y = 0.75\<rparr>] []))"
  by (simp add: updateHighlightJoints_def smoothJoint_def)

text \<open>
  Claim C10.  Without a canvas or without a context the update stores the empty list,
  whatever markers arrive and whatever was persisted.
\<close>

theorem no_surface_resets:
  "cvo = None \<or> \<not> cx \<Longrightarrow> updateHighlightJoints cvo cx newJoints old = []"
  by (auto simp: updateHighlightJoints_def split: option.splits)

theorem no_surface_resets_witness:
  "updateHighlightJoints (Some \<lparr>width = 1000, height = 1000\<rparr>) False
        [\<lparr>name = ''left_knee'', x = 0.6, y = 0.5\<rparr>] [\<lparr>name = ''left_knee'', x = 0.5, y = 0.5\<rparr>] = []
   \<and> updateHighlightJoints None True
        [\<lparr>name = ''left_knee'', x = 0.6, y = 0.5\<rparr>] [\<lparr>name = ''left_knee'', x = 0.5, y = 0.5\<rparr>] = []"
proof -
  have h1: "Some \<lparr>width = 1000, height = 1000\<rparr> = None \<or> \<not> False" by simp
  have h2: "(None :: surface option) = None \<or> \<not> True" by simp
  show ?thesis
    using no_surface_resets [OF h1] no_surface_resets [OF h2] by simp
qed

section \<open>Release of the flag, the error field, the frame counter\<close>



text \<open>
  Claim C7.  When the decoded body has a non-empty \<^verbatim>\<open>error\<close> string, the handler writes
  \<^verbatim>\<open>'Error: '\<close> followed by that string into the status element and changes nothing
  else: the persisted markers and the rest of the page are as before, and the cycle ends
  with the flag clear.
\<close>

theorem error_field_atomic:
  assumes "error data = Some e" and "e \<noteq> []"
  shows "onData data s = s\<lparr>view := (view s)\<lparr>poseStatus := ''Error: '' @ e\<rparr>\<rparr>
     \<and> (inflight s \<noteq> [] \<longrightarrow>
          lastHighlightJoints (settle (Decoded data) s) = lastHighlightJoints s
        \<and> view (settle (Decoded data) s) = (view s)\<lparr>poseStatus := ''Error: '' @ e\<rparr>
        \<and> \<not> isProcessingFrame (settle (Decoded data) s))"
  using assms by (auto simp: onData_def settle_def split: list.splits)

theorem error_field_atomic_witness:
  "error ((exampleResponse [\<lparr>name = ''left_knee'', x = 0.9, y = 0.9\<rparr>])
            \<lparr>error := Some ''model failure''\<rparr>) = Some ''model failure''
   \<and> ''model failure'' \<noteq> []
   \<and> inflight (run [StreamOn, Tick 16, Settle (Decoded (exampleResponse
         [\<lparr>name = ''left_knee'', x = 0.5, y = 0.5\<rparr>])), Tick 33] exampleStart) \<noteq> []
   \<and> lastHighlightJoints
       (settle (Decoded ((exampleResponse [\<lparr>name = ''left_knee'', x = 0.9, y = 0.9\<rparr>])
                            \<lparr>error := Some ''model failure''\<rparr>))
          (run [StreamOn, Tick 16, Settle (Decoded (exampleResponse
             [\<lparr>name = ''left_knee'', x = 0.5, y = 0.5\<rparr>])), Tick 33] exampleStart))
       = [\<lparr>name = ''left_knee'', x = 0.5, y = 0.5\<rparr>]
   \<and> poseStatus (view
       (settle (Decoded ((exampleResponse [\<lparr>name = ''left_knee'', x = 0.9, y = 0.9\<rparr>])
                            \<lparr>error := Some ''model failure''\<rparr>))
          (run [StreamOn, Tick 16, Settle (Decoded (exampleResponse
             [\<lparr>name = ''left_knee'', x = 0.5, y = 0.5\<rparr>])), Tick 33] exampleStart)))
       = ''Error: model failure''"
proof -
  let ?d = "(exampleResponse [\<lparr>name = ''left_knee'', x = 0.9, y = 0.9\<rparr>])
              \<lparr>error := Some ''model failure''\<rparr>"
  let ?s = "run [StreamOn, Tick 16, Settle (Decoded (exampleResponse
              [\<lparr>name = ''left_knee'', x = 0.5, y = 0.5\<rparr>])), Tick 33] exampleStart"
  have h1: "error ?d = Some ''model failure''" by simp
  have h2: "''model failure'' \<noteq> []" by simp
  have h3: "inflight ?s \<noteq> []"
    by (simp add: exampleStart_def initialState_def startProcessing_def
          captureAndProcess_def settle_def onData_def exampleResponse_def Let_def)
  have l: "lastHighlightJoints ?s = [\<lparr>name = ''left_knee'', x = 0.5, y = 0.5\<rparr>]"
    by (simp add: exampleStart_def initialState_def startProcessing_def
          captureAndProcess_def settle_def onData_def exampleResponse_def
          updateHighlightJoints_def smoothJoint_def Let_def)
  show ?thesis
    using error_field_atomic [OF h1 h2, of ?s] h1 h3 l by simp
qed

lemma tick_counters:
  "isStreaming s \<Longrightarrow>
      frameCount (step (Tick t) s) = (if t - lastTime s \<ge> 1000 then 0 else frameCount s + 1)
    \<and> fps (step (Tick t) s) = (if t - lastTime s \<ge> 1000 then frameCount s + 1 else fps s)
    \<and> lastTime (step (Tick t) s) = (if t - lastTime s \<ge> 1000 then t else lastTime s)
    \<and> isStreaming (step (Tick t) s)"
  by (simp add: startProcessing_def Let_def captureAndProcess_fields)

lemma fps_changes_only_at_boundary:
  "fps (step e s) \<noteq> fps s \<Longrightarrow>
     isStreaming s
   \<and> (\<exists>t. (e = Tick t \<or> (\<exists>w h. e = LoadedMetadata w h t)) \<and> t - lastTime s \<ge> 1000)"
  by (cases e)
     (auto simp: startProcessing_def Let_def captureAndProcess_fields settle_fields
           split: if_splits option.splits)

lemma window_count:
  "isStreaming s \<Longrightarrow>
   \<forall>e \<in> set evs. (case e of Tick u \<Rightarrow> u - lastTime s < 1000 | Settle r \<Rightarrow> True | _ \<Rightarrow> False) \<Longrightarrow>
     isStreaming (run evs s) \<and> lastTime (run evs s) = lastTime s \<and> fps (run evs s) = fps s
   \<and> frameCount (run evs s) =
        frameCount s + int (length (filter (\<lambda>e. case e of Tick u \<Rightarrow> True | _ \<Rightarrow> False) evs))"
proof (induction evs arbitrary: s)
  case Nil
  then show ?case by simp
next
  case (Cons e evs)
  show ?case
  proof (cases e)
    case (Tick u)
    with Cons.prems have u: "u - lastTime s < 1000" by simp
    have st: "isStreaming (step e s)" "lastTime (step e s) = lastTime s"
      "fps (step e s) = fps s" "frameCount (step e s) = frameCount s + 1"
      using tick_counters [OF Cons.prems(1), of u] u Tick by simp_all
    have "\<forall>e' \<in> set evs.
            (case e' of Tick u \<Rightarrow> u - lastTime (step e s) < 1000 | Settle r \<Rightarrow> True | _ \<Rightarrow> False)"
      using Cons.prems(2) unfolding st(2) by simp
    from Cons.IH [OF st(1) this] st Tick show ?thesis by simp
  next
    case (Settle r)
    have st: "isStreaming (step e s)" "lastTime (step e s) = lastTime s"
      "fps (step e s) = fps s" "frameCount (step e s) = frameCount s"
      using Cons.prems(1) Settle by (simp_all add: settle_fields)
    have "\<forall>e' \<in> set evs.
            (case e' of Tick u \<Rightarrow> u - lastTime (step e s) < 1000 | Settle r \<Rightarrow> True | _ \<Rightarrow> False)"
      using Cons.prems(2) unfolding st(2) by simp
    from Cons.IH [OF st(1) this] st Settle show ?thesis by simp
  qed (use Cons.prems in simp_all)
qed

text \<open>
  Claim C9.  A tick with the stream on adds one to the frame counter; if the clock is
  1000 ms or more past the window start, it stores the counter in \<^verbatim>\<open>fps\<close>, resets the
  counter to zero and moves the window start to the clock reading, and otherwise leaves
  \<^verbatim>\<open>fps\<close> and the window start alone.  No event changes \<^verbatim>\<open>fps\<close> except a call of
  \<^verbatim>\<open>startProcessing\<close> at such a boundary.  After any sequence of ticks inside the window,
  with requests settling in between, the tick that closes the window sets \<^verbatim>\<open>fps\<close> to the
  counter at the start plus the number of ticks, the closing one included: counted from
  a reset, the number of ticks of the window.
\<close>

theorem fps_accounting:
  "(isStreaming s1 \<longrightarrow>
      frameCount (step (Tick t1) s1) = (if t1 - lastTime s1 \<ge> 1000 then 0 else frameCount s1 + 1)
    \<and> fps (step (Tick t1) s1) = (if t1 - lastTime s1 \<ge> 1000 then frameCount s1 + 1 else fps s1)
    \<and> lastTime (step (Tick t1) s1) = (if t1 - lastTime s1 \<ge> 1000 then t1 else lastTime s1))
   \<and> (fps (step e s2) \<noteq> fps s2 \<longrightarrow>
        isStreaming s2
      \<and> (\<exists>t. (e = Tick t \<or> (\<exists>w h. e = LoadedMetadata w h t)) \<and> t - lastTime s2 \<ge> 1000))
   \<and> (isStreaming s3
       \<and> (\<forall>e \<in> set evs.
            (case e of Tick u \<Rightarrow> u - lastTime s3 < 1000 | Settle r \<Rightarrow> True | _ \<Rightarrow> False))
       \<and> t3 - lastTime s3 \<ge> 1000 \<longrightarrow>
        fps (run (evs @ [Tick t3]) s3) =
          frameCount s3
          + int (length (filter (\<lambda>e. case e of Tick u \<Rightarrow> True | _ \<Rightarrow> False) evs)) + 1
      \<and> frameCount (run (evs @ [Tick t3]) s3) = 0
      \<and> lastTime (run (evs @ [Tick t3]) s3) = t3)"
proof (intro conjI impI)
  assume h: "isStreaming s3
       \<and> (\<forall>e \<in> set evs.
            (case e of Tick u \<Rightarrow> u - lastTime s3 < 1000 | Settle r \<Rightarrow> True | _ \<Rightarrow> False))
       \<and> t3 - lastTime s3 \<ge> 1000"
  let ?u = "run evs s3"
  from h window_count [of s3 evs]
  have u: "isStreaming ?u" "lastTime ?u = lastTime s3"
    "frameCount ?u = frameCount s3
       + int (length (filter (\<lambda>e. case e of Tick u \<Rightarrow> True | _ \<Rightarrow> False) evs))"
    by simp_all
  from tick_counters [OF u(1), of t3] u h
  show "fps (run (evs @ [Tick t3]) s3) =
          frameCount s3
          + int (length (filter (\<lambda>e. case e of Tick u \<Rightarrow> True | _ \<Rightarrow> False) evs)) + 1"
    and "frameCount (run (evs @ [Tick t3]) s3) = 0"
    and "lastTime (run (evs @ [Tick t3]) s3) = t3"
    by (simp_all add: run_append)
qed (use tick_counters [of s1 t1] fps_changes_only_at_boundary [of e s2] in simp_all)

theorem fps_accounting_witness:
  "isStreaming (run [StreamOn] exampleStart)
   \<and> frameCount (step (Tick 16) (run [StreamOn] exampleStart)) = 1
   \<and> fps (step (Tick 16) (run [StreamOn] exampleStart)) = 30
   \<and> fps (step (Tick 1000) (run [StreamOn] exampleStart)) \<noteq> fps (run [StreamOn] exampleStart)
   \<and> 16 - lastTime (run [StreamOn] exampleStart) < 1000
   \<and> 33 - lastTime (run [StreamOn] exampleStart) < 1000
   \<and> 1000 - lastTime (run [StreamOn] exampleStart) \<ge> 1000
   \<and> fps (run ([Tick 16, Settle FetchRejected, Tick 33] @ [Tick 1000])
             (run [StreamOn] exampleStart)) = 3
   \<and> frameCount (run ([Tick 16, Settle FetchRejected, Tick 33] @ [Tick 1000])
             (run [StreamOn] exampleStart)) = 0
   \<and> lastTime (run ([Tick 16, Settle FetchRejected, Tick 33] @ [Tick 1000])
             (run [StreamOn] exampleStart)) = 1000"
proof -
  let ?s = "run [StreamOn] exampleStart"
  have h: "isStreaming ?s" "lastTime ?s = 0" "frameCount ?s = 0" "fps ?s = 30"
    by (simp_all add: exampleStart_def initialState_def)
  have b: "fps (step (Tick 1000) ?s) \<noteq> fps ?s"
    by (simp add: exampleStart_def initialState_def startProcessing_def
          captureAndProcess_def Let_def)
  show ?thesis
    using fps_accounting [of ?s 16 "Tick 1000" ?s ?s "[Tick 16, Settle FetchRejected, Tick 33]" 1000]
      h b
    by simp
qed

end
